theory Spec2Isabelle
  imports Main "HOL-Library.Char_ord" "HOL-Library.List_Lexorder" "HOL-Library.AList"
    "HOL-Library.Multiset"
begin

section \<open>Data model\<close>

text \<open>
  The exceptions of the Python source that the model makes explicit. A function that can
  raise returns \<open>error + 'a\<close>, with \<open>Inl\<close> for the exception. \<open>RequestException\<close> is what
  \<open>requests.get\<close> raises when it gets no response.
\<close>

datatype error = TypeError | AttributeError | KeyError | RequestException

text \<open>
  One fetched message, the dictionary \<open>email_info\<close> built in \<open>fetch_sent_emails\<close>.
  Strings are lists of 8-bit characters, compared by code point as Python compares
  \<open>str\<close>; \<open>name_data\<close> is the dictionary returned by \<open>extract_emails\<close>.
\<close>

record email_info =
  subject :: string
  sender :: string
  to :: "string list"
  cc :: "string list"
  bcc :: "string list"
  received :: string
  name_data :: "string \<rightharpoonup> string"

text \<open>
  One value of \<open>email_stats\<close> in \<open>aggregate_email_data\<close>: the dictionary with the keys
  "Recipient Email", "Company / Management", "Total Mails Sent", "Name" and
  "Last Interacted Date". The date is \<open>None\<close> when \<open>format_date_for_airtable\<close> returned
  \<open>None\<close>.
\<close>

record recipient_summary =
  Recipient_Email :: string
  Company_Management :: string
  Total_Mails_Sent :: int
  Name :: string
  Last_Interacted_Date :: "string option"

text \<open>
  \<open>email_stats\<close> is a Python dictionary: it keeps its keys in insertion order, and
  assigning to an existing key keeps the key's place. That is \<open>AList.update\<close> on an
  association list, read with \<open>map_of\<close>.
\<close>

type_synonym email_stats = "(string \<times> recipient_summary) list"

section \<open>Formatting dates\<close>

text \<open>
  \<open>datetime.strptime(date_string, "%Y-%m-%dT%H:%M:%SZ")\<close> compiles the format to the regular
  expression
  \<^verbatim>\<open>(?P<Y>\d\d\d\d)-(?P<m>1[0-2]|0[1-9]|[1-9])-(?P<d>3[0-1]|[1-2]\d|0[1-9]|[1-9]| [1-9])\<close>
  \<^verbatim>\<open>T(?P<H>2[0-3]|[0-1]\d|\d):(?P<M>[0-5]\d|\d):(?P<S>6[0-1]|[0-5]\d|\d)Z\<close>
  matched ignoring case at the start of the string, refuses a string with unconverted data
  left, and builds the \<open>datetime\<close>, which refuses a year 0, a day the month does not have
  and a second above 59. Every refusal is a \<open>ValueError\<close>. A matcher returns its matches in
  the order the backtracking search tries them, each with the rest of the string.
\<close>

definition digits :: string where
  "digits = ''0123456789''"

definition nonzero_digits :: string where
  "nonzero_digits = ''123456789''"

definition digit_val :: "char \<Rightarrow> nat" where
  "digit_val c = of_char c - 48"

definition d1 :: "string \<Rightarrow> string \<Rightarrow> (nat \<times> string) list" where
  "d1 cls s =
     (case s of
        a # rest \<Rightarrow> if a \<in> set cls then [(digit_val a, rest)] else []
      | [] \<Rightarrow> [])"

definition d2 :: "string \<Rightarrow> string \<Rightarrow> string \<Rightarrow> (nat \<times> string) list" where
  "d2 cls1 cls2 s =
     (case s of
        a # b # rest \<Rightarrow>
          if a \<in> set cls1 \<and> b \<in> set cls2 then [(digit_val a * 10 + digit_val b, rest)] else []
      | _ \<Rightarrow> [])"

definition space_d1 :: "string \<Rightarrow> (nat \<times> string) list" where
  "space_d1 s =
     (case s of
        a # b # rest \<Rightarrow>
          if a = CHR '' '' \<and> b \<in> set nonzero_digits then [(digit_val b, rest)] else []
      | _ \<Rightarrow> [])"

definition re_Y :: "string \<Rightarrow> (nat \<times> string) list" where
  "re_Y s =
     (case s of
        a # b # c # d # rest \<Rightarrow>
          if a \<in> set digits \<and> b \<in> set digits \<and> c \<in> set digits \<and> d \<in> set digits
          then [(digit_val a * 1000 + digit_val b * 100 + digit_val c * 10 + digit_val d, rest)]
          else []
      | _ \<Rightarrow> [])"

definition re_m :: "string \<Rightarrow> (nat \<times> string) list" where
  "re_m s = d2 ''1'' ''012'' s @ d2 ''0'' nonzero_digits s @ d1 nonzero_digits s"

definition re_d :: "string \<Rightarrow> (nat \<times> string) list" where
  "re_d s =
     d2 ''3'' ''01'' s @ d2 ''12'' digits s @ d2 ''0'' nonzero_digits s @ d1 nonzero_digits s
       @ space_d1 s"

definition re_H :: "string \<Rightarrow> (nat \<times> string) list" where
  "re_H s = d2 ''2'' ''0123'' s @ d2 ''01'' digits s @ d1 digits s"

definition re_M :: "string \<Rightarrow> (nat \<times> string) list" where
  "re_M s = d2 ''012345'' digits s @ d1 digits s"

definition re_S :: "string \<Rightarrow> (nat \<times> string) list" where
  "re_S s = d2 ''6'' ''01'' s @ d2 ''012345'' digits s @ d1 digits s"

text \<open>A literal of the format, matched ignoring case: \<open>lit ''Tt''\<close> is the format's \<open>T\<close>.\<close>

definition lit :: "string \<Rightarrow> string \<Rightarrow> string list" where
  "lit cs s = (case s of a # rest \<Rightarrow> if a \<in> set cs then [rest] else [] | [] \<Rightarrow> [])"

text \<open>The fields of a \<open>datetime\<close>: year, month, day, hour, minute, second.\<close>

type_synonym datetime = "nat \<times> nat \<times> nat \<times> nat \<times> nat \<times> nat"

definition format_regex_match :: "string \<Rightarrow> (datetime \<times> string) list" where
  "format_regex_match s =
     List.bind (re_Y s) (\<lambda>(Y, s1).
     List.bind (lit ''-'' s1) (\<lambda>s2.
     List.bind (re_m s2) (\<lambda>(m, s3).
     List.bind (lit ''-'' s3) (\<lambda>s4.
     List.bind (re_d s4) (\<lambda>(d, s5).
     List.bind (lit ''Tt'' s5) (\<lambda>s6.
     List.bind (re_H s6) (\<lambda>(H, s7).
     List.bind (lit '':'' s7) (\<lambda>s8.
     List.bind (re_M s8) (\<lambda>(M, s9).
     List.bind (lit '':'' s9) (\<lambda>s10.
     List.bind (re_S s10) (\<lambda>(S, s11).
     List.bind (lit ''Zz'' s11) (\<lambda>s12.
       [((Y, m, d, H, M, S), s12)]))))))))))))"

definition is_leap :: "nat \<Rightarrow> bool" where
  "is_leap y = (y mod 4 = 0 \<and> (if y mod 100 = 0 then y mod 400 = 0 else True))"

definition days_in_month :: "nat \<Rightarrow> nat \<Rightarrow> nat" where
  "days_in_month y m =
     (if m = 2 then (if is_leap y then 29 else 28)
      else if m \<in> {4, 6, 9, 11} then 30 else 31)"

definition valid_datetime :: "datetime \<Rightarrow> bool" where
  "valid_datetime dt =
     (case dt of (Y, m, d, H, M, S) \<Rightarrow>
        1 \<le> Y \<and> Y \<le> 9999 \<and> 1 \<le> m \<and> m \<le> 12 \<and> 1 \<le> d \<and> d \<le> days_in_month Y m
          \<and> H \<le> 23 \<and> M \<le> 59 \<and> S \<le> 59)"

text \<open>\<open>None\<close> is the \<open>ValueError\<close> of \<open>datetime.strptime\<close>.\<close>

definition strptime :: "string \<Rightarrow> datetime option" where
  "strptime date_string =
     (case format_regex_match date_string of
        [] \<Rightarrow> None
      | (dt, rest) # _ \<Rightarrow>
          if rest \<noteq> [] then None
          else if valid_datetime dt then Some dt else None)"

text \<open>
  \<open>dt.strftime("%Y/%m/%d")\<close> hands the format to the C library. On Linux \<open>%Y\<close> is the year
  as a decimal number with no leading zeros, so that a year below 1000 has fewer than four
  digits (\<open>999/12/31\<close>); \<open>%m\<close> and \<open>%d\<close> are two digits each, filled with zeros.
\<close>

definition digit_char :: "nat \<Rightarrow> char" where
  "digit_char n = digits ! (n mod 10)"

definition pad2 :: "nat \<Rightarrow> string" where
  "pad2 n = [digit_char (n div 10), digit_char n]"

fun decimal :: "nat \<Rightarrow> string" where
  "decimal n = (if n < 10 then [digit_char n] else decimal (n div 10) @ [digit_char n])"

declare decimal.simps [simp del]

definition strftime :: "datetime \<Rightarrow> string" where
  "strftime dt = (case dt of (Y, m, d, H, M, S) \<Rightarrow> decimal Y @ ''/'' @ pad2 m @ ''/'' @ pad2 d)"

definition format_date_for_airtable :: "string \<Rightarrow> string option" where
  "format_date_for_airtable date_string =
     (case strptime date_string of
        Some dt \<Rightarrow> Some (strftime dt)
      | None \<Rightarrow> None)"

section \<open>Aggregation\<close>

text \<open>\<open>s.split(sep)\<close> for a separator of one character: never an empty list.\<close>

fun split_acc :: "char \<Rightarrow> string \<Rightarrow> string \<Rightarrow> string list" where
  "split_acc sep acc [] = [rev acc]"
| "split_acc sep acc (x # xs) =
     (if x = sep then rev acc # split_acc sep [] xs else split_acc sep (x # acc) xs)"

definition split :: "string \<Rightarrow> char \<Rightarrow> string list" where
  "split s sep = split_acc sep [] s"

text \<open>\<open>recipient.split("@")[-1] if "@" in recipient else "unknown"\<close>\<close>

definition domain_of :: "string \<Rightarrow> string" where
  "domain_of recipient =
     (if CHR ''@'' \<in> set recipient then last (split recipient CHR ''@'') else ''unknown'')"

text \<open>
  Python's \<open>max(a, b)\<close> keeps \<open>a\<close> unless \<open>b > a\<close>, and the comparison raises
  \<open>TypeError\<close> as soon as one side is \<open>None\<close> (also when both are).
\<close>

definition py_max :: "string option \<Rightarrow> string option \<Rightarrow> error + string option" where
  "py_max a b =
     (case a of
        None \<Rightarrow> Inl TypeError
      | Some x \<Rightarrow>
          (case b of
             None \<Rightarrow> Inl TypeError
           | Some y \<Rightarrow> Inr (Some (if x < y then y else x))))"

text \<open>\<open>recipients = email["to"] + email["cc"] + email["bcc"]\<close>\<close>

definition recipients :: "email_info \<Rightarrow> string list" where
  "recipients email = to email @ cc email @ bcc email"

text \<open>The body of the inner loop of \<open>aggregate_email_data\<close>, for one recipient of one message.\<close>

definition aggregate_recipient :: "email_info \<Rightarrow> string \<Rightarrow> email_stats \<Rightarrow> error + email_stats" where
  "aggregate_recipient email recipient email_stats =
     (let domain = domain_of recipient;
          email_stats1 =
            (if map_of email_stats recipient = None
             then AList.update recipient
                    \<lparr>Recipient_Email = recipient,
                     Company_Management = domain,
                     Total_Mails_Sent = 0,
                     Name = (case name_data email recipient of Some n \<Rightarrow> n | None \<Rightarrow> ''''),
                     Last_Interacted_Date = format_date_for_airtable (received email)\<rparr>
                    email_stats
             else email_stats)
      in case map_of email_stats1 recipient of
           None \<Rightarrow> Inl KeyError
         | Some entry \<Rightarrow>
             (let entry1 = entry\<lparr>Total_Mails_Sent :=
                                  Total_Mails_Sent entry + int (count_list (recipients email) recipient)\<rparr>
              in case py_max (Last_Interacted_Date entry1)
                             (format_date_for_airtable (received email)) of
                   Inl e \<Rightarrow> Inl e
                 | Inr d \<Rightarrow>
                     Inr (AList.update recipient (entry1\<lparr>Last_Interacted_Date := d\<rparr>)
                            email_stats1)))"

fun aggregate_recipients :: "email_info \<Rightarrow> string list \<Rightarrow> email_stats \<Rightarrow> error + email_stats" where
  "aggregate_recipients email [] email_stats = Inr email_stats"
| "aggregate_recipients email (recipient # rest) email_stats =
     (case aggregate_recipient email recipient email_stats of
        Inl e \<Rightarrow> Inl e
      | Inr email_stats' \<Rightarrow> aggregate_recipients email rest email_stats')"

text \<open>
  \<open>for recipient in set(recipients)\<close>: a Python set is iterated in the order of its hash
  table, and the hashes of strings change with the hash seed of the interpreter. The order
  is therefore a parameter of the model: \<open>iteration xs\<close> is the list in which \<open>set(xs)\<close>
  is iterated. All that Python guarantees of it is \<open>set_iteration\<close>: every element of
  \<open>xs\<close> comes, and comes once.
\<close>

definition set_iteration :: "(string list \<Rightarrow> string list) \<Rightarrow> bool" where
  "set_iteration iteration = (\<forall>xs. distinct (iteration xs) \<and> set (iteration xs) = set xs)"

fun aggregate_emails ::
  "(string list \<Rightarrow> string list) \<Rightarrow> email_info list \<Rightarrow> email_stats \<Rightarrow> error + email_stats" where
  "aggregate_emails iteration [] email_stats = Inr email_stats"
| "aggregate_emails iteration (email # rest) email_stats =
     (case aggregate_recipients email (iteration (recipients email)) email_stats of
        Inl e \<Rightarrow> Inl e
      | Inr email_stats' \<Rightarrow> aggregate_emails iteration rest email_stats')"

definition aggregate_email_data ::
  "(string list \<Rightarrow> string list) \<Rightarrow> email_info list \<Rightarrow> error + recipient_summary list" where
  "aggregate_email_data iteration email_data =
     (case aggregate_emails iteration email_data [] of
        Inl e \<Rightarrow> Inl e
      | Inr email_stats \<Rightarrow> Inr (map snd email_stats))"

text \<open>Reading the returned list by recipient.\<close>

definition summary_of :: "recipient_summary list \<Rightarrow> string \<Rightarrow> recipient_summary option" where
  "summary_of aggregated_data recipient =
     find (\<lambda>entry. Recipient_Email entry = recipient) aggregated_data"

section \<open>What aggregation computes\<close>

text \<open>
  The functions in which the properties of the aggregation are stated: the messages that
  name a recipient, the occurrences of a recipient in one message, the formatted dates of
  the messages that name a recipient, and the summary a recipient is expected to have.
\<close>

definition contributing :: "email_info list \<Rightarrow> string \<Rightarrow> email_info list" where
  "contributing email_data recipient = filter (\<lambda>email. recipient \<in> set (recipients email)) email_data"

definition occurrences :: "email_info \<Rightarrow> string \<Rightarrow> int" where
  "occurrences email recipient =
     int (count_list (to email) recipient) + int (count_list (cc email) recipient)
       + int (count_list (bcc email) recipient)"

definition contributing_dates :: "email_info list \<Rightarrow> string \<Rightarrow> string list" where
  "contributing_dates email_data recipient =
     List.map_filter (\<lambda>email. format_date_for_airtable (received email))
       (contributing email_data recipient)"

definition first_sight :: "email_info \<Rightarrow> string \<Rightarrow> recipient_summary" where
  "first_sight email recipient =
     \<lparr>Recipient_Email = recipient,
      Company_Management = domain_of recipient,
      Total_Mails_Sent = 0,
      Name = (case name_data email recipient of Some n \<Rightarrow> n | None \<Rightarrow> ''''),
      Last_Interacted_Date = format_date_for_airtable (received email)\<rparr>"

definition merged :: "email_info \<Rightarrow> string \<Rightarrow> recipient_summary option \<Rightarrow> recipient_summary" where
  "merged email recipient old =
     (let entry = (case old of None \<Rightarrow> first_sight email recipient | Some s \<Rightarrow> s)
      in entry\<lparr>Total_Mails_Sent := Total_Mails_Sent entry + occurrences email recipient,
               Last_Interacted_Date :=
                 (case Last_Interacted_Date entry of
                    None \<Rightarrow> None
                  | Some x \<Rightarrow>
                      (case format_date_for_airtable (received email) of
                         None \<Rightarrow> None
                       | Some d \<Rightarrow> Some (max x d)))\<rparr>)"

definition expected_summary :: "email_info list \<Rightarrow> string \<Rightarrow> recipient_summary option" where
  "expected_summary email_data recipient =
     (case contributing email_data recipient of
        [] \<Rightarrow> None
      | first # _ \<Rightarrow>
          Some \<lparr>Recipient_Email = recipient,
                Company_Management = domain_of recipient,
                Total_Mails_Sent = (\<Sum>email\<leftarrow>email_data. occurrences email recipient),
                Name = (case name_data first recipient of Some n \<Rightarrow> n | None \<Rightarrow> ''''),
                Last_Interacted_Date = Some (Max (set (contributing_dates email_data recipient)))\<rparr>)"

definition keys_ok :: "email_stats \<Rightarrow> bool" where
  "keys_ok email_stats = list_all (\<lambda>(k, s). Recipient_Email s = k) email_stats"

definition dates_ok :: "email_stats \<Rightarrow> bool" where
  "dates_ok email_stats = list_all (\<lambda>(k, s). Last_Interacted_Date s \<noteq> None) email_stats"

definition unparsed :: "email_info \<Rightarrow> bool" where
  "unparsed email = (recipients email \<noteq> [] \<and> format_date_for_airtable (received email) = None)"

text \<open>
  A message as \<open>fetch_sent_emails\<close> builds it from a response that carries neither a subject
  nor a sender: the recipients of the three roles, the received timestamp and the names.
\<close>

definition mail ::"string list \<Rightarrow> string list \<Rightarrow> string list \<Rightarrow> string \<Rightarrow> (string \<rightharpoonup> string) \<Rightarrow> email_info" where
  "mail to_list cc_list bcc_list received_at names =
     \<lparr>subject = ''No Subject'', sender = ''Unknown'', to = to_list, cc = cc_list, bcc = bcc_list,
      received = received_at, name_data = names\<rparr>"


text \<open>
  The fields of a summary that \<open>push_to_airtable\<close> compares or writes for a record that is
  already stored, and the domain: every field but the display name.
\<close>

definition without_name :: "recipient_summary \<Rightarrow> string \<times> string \<times> int \<times> string option" where
  "without_name entry =
     (Recipient_Email entry, Company_Management entry, Total_Mails_Sent entry,
      Last_Interacted_Date entry)"

section \<open>Reconciling the aggregate with the stored records\<close>

text \<open>
  A record of the destination table as \<open>fetch_all_airtable_records\<close> returns it: its
  \<open>id\<close> and its \<open>fields\<close>, of which \<open>push_to_airtable\<close> reads "Recipient Email",
  "Total Mails Sent" and "Last Interacted Date". A field the table left out is \<open>None\<close>.
\<close>

record airtable_fields =
  Recipient_Email_field :: "string option"
  Total_Mails_Sent_field :: "int option"
  Last_Interacted_Date_field :: "string option"

record airtable_record =
  record_id :: string
  record_fields :: airtable_fields

text \<open>An element of \<open>update_records\<close>: the \<open>id\<close> and the two fields that are written.\<close>

record update_record =
  update_id :: string
  update_Total_Mails_Sent :: int
  update_Last_Interacted_Date :: "string option"

text \<open>
  \<open>str.strip()\<close> and \<open>str.lower()\<close> on characters of 8 bits, read as the first 256 code
  points: the white space is 9 to 13, 28 to 32, 133 and 160; the capital letters are
  \<open>A\<close> to \<open>Z\<close> and 192 to 222 without 215, each 32 below its small letter, which is the
  capital with the bit of value 32 set.
\<close>

definition isspace :: "char \<Rightarrow> bool" where
  "isspace c = ((of_char c :: nat) \<in> {9, 10, 11, 12, 13, 28, 29, 30, 31, 32, 133, 160})"

definition strip :: "string \<Rightarrow> string" where
  "strip s = rev (dropWhile isspace (rev (dropWhile isspace s)))"

definition lower_char :: "char \<Rightarrow> char" where
  "lower_char c =
     (let n = (of_char c :: nat)
      in if (65 \<le> n \<and> n \<le> 90) \<or> (192 \<le> n \<and> n \<le> 222 \<and> n \<noteq> 215)
         then (case c of Char b0 b1 b2 b3 b4 b5 b6 b7 \<Rightarrow> Char b0 b1 b2 b3 b4 True b6 b7)
         else c)"

definition lower :: "string \<Rightarrow> string" where
  "lower s = map lower_char s"

text \<open>\<open>s.replace(old, new)\<close> for \<open>old\<close> and \<open>new\<close> of one character each.\<close>

definition replace :: "string \<Rightarrow> char \<Rightarrow> char \<Rightarrow> string" where
  "replace s old new = map (\<lambda>c. if c = old then new else c) s"

text \<open>
  The dictionary comprehension of \<open>push_to_airtable\<close>: the key is the stored
  "Recipient Email" as it is, a later record with the same key replaces the earlier one,
  and a record without the field raises \<open>KeyError\<close>.
\<close>

fun existing_records_dict ::
  "airtable_record list \<Rightarrow> (string \<times> airtable_record) list
     \<Rightarrow> error + (string \<times> airtable_record) list" where
  "existing_records_dict [] dict = Inr dict"
| "existing_records_dict (record # rest) dict =
     (case Recipient_Email_field (record_fields record) of
        None \<Rightarrow> Inl KeyError
      | Some key \<Rightarrow> existing_records_dict rest (AList.update key record dict))"

text \<open>
  \<open>needs_update\<close>: \<open>or\<close> evaluates its second operand only when the totals are equal, and
  \<open>last_interacted.replace\<close> raises \<open>AttributeError\<close> on \<open>None\<close>.
\<close>

definition needs_update :: "airtable_fields \<Rightarrow> int \<Rightarrow> string option \<Rightarrow> error + bool" where
  "needs_update existing_fields total_mails_sent last_interacted =
     (if Total_Mails_Sent_field existing_fields \<noteq> Some total_mails_sent then Inr True
      else case last_interacted of
             None \<Rightarrow> Inl AttributeError
           | Some date \<Rightarrow>
               Inr (Last_Interacted_Date_field existing_fields
                      \<noteq> Some (replace date CHR ''/'' CHR ''-'')))"

text \<open>
  The loop over \<open>aggregated_data\<close>, with \<open>new_records\<close> and \<open>update_records\<close> as they grow.
\<close>

fun reconcile ::
  "(string \<times> airtable_record) list \<Rightarrow> recipient_summary list
     \<Rightarrow> recipient_summary list \<Rightarrow> update_record list
     \<Rightarrow> error + recipient_summary list \<times> update_record list" where
  "reconcile dict [] new_records update_records = Inr (new_records, update_records)"
| "reconcile dict (entry # rest) new_records update_records =
     (let email = lower (strip (Recipient_Email entry));
          total_mails_sent = Total_Mails_Sent entry;
          last_interacted = Last_Interacted_Date entry
      in case map_of dict email of
           Some record \<Rightarrow>
             (case needs_update (record_fields record) total_mails_sent last_interacted of
                Inl e \<Rightarrow> Inl e
              | Inr True \<Rightarrow>
                  reconcile dict rest new_records
                    (update_records @
                       [\<lparr>update_id = record_id record,
                         update_Total_Mails_Sent = total_mails_sent,
                         update_Last_Interacted_Date = last_interacted\<rparr>])
              | Inr False \<Rightarrow> reconcile dict rest new_records update_records)
         | None \<Rightarrow> reconcile dict rest (new_records @ [entry]) update_records)"

text \<open>
  \<open>xs[i : i + 10] for i in range(0, len(xs), 10)\<close>: the batches of at most ten that are
  sent in one request each.
\<close>

fun batches :: "'a list \<Rightarrow> 'a list list" where
  "batches xs = (if xs = [] then [] else take 10 xs # batches (drop 10 xs))"

declare batches.simps [simp del]

datatype airtable_request = Post "recipient_summary list" | Patch "update_record list"

text \<open>
  \<open>push_to_airtable\<close> on the records that \<open>fetch_all_airtable_records\<close> returned: the
  requests it sends, the inserts before the updates.
\<close>

definition push_to_airtable ::
  "airtable_record list \<Rightarrow> recipient_summary list \<Rightarrow> error + airtable_request list" where
  "push_to_airtable existing_records aggregated_data =
     (case existing_records_dict existing_records [] of
        Inl e \<Rightarrow> Inl e
      | Inr dict \<Rightarrow>
          (case reconcile dict aggregated_data [] [] of
             Inl e \<Rightarrow> Inl e
           | Inr (new_records, update_records) \<Rightarrow>
               Inr (map Post (batches new_records) @ map Patch (batches update_records))))"

section \<open>Fetching one batch\<close>

definition BATCH_SIZE :: nat where
  "BATCH_SIZE = 50"

definition MAX_RETRIES :: nat where
  "MAX_RETRIES = 3"

definition RETRY_DELAY :: nat where
  "RETRY_DELAY = 10"

text \<open>
  A message of the \<open>value\<close> list of a page: the keys that \<open>fetch_sent_emails\<close> reads. A
  recipient is the pair of \<open>emailAddress.address\<close> and \<open>emailAddress.name\<close>; a list of
  recipients that is absent is the empty list.
\<close>

record graph_message =
  subject_value :: "string option"
  sender_address :: "string option"
  toRecipients :: "(string \<times> string) list"
  ccRecipients :: "(string \<times> string) list"
  bccRecipients :: "(string \<times> string) list"
  receivedDateTime :: "string option"

text \<open>
  \<open>extract_emails\<close> assigns \<open>result[email] = name\<close> in the order to, cc, bcc: the last
  name of an address stays.
\<close>

definition extract_emails :: "graph_message \<Rightarrow> (string \<rightharpoonup> string)" where
  "extract_emails data = map_of (rev (toRecipients data @ ccRecipients data @ bccRecipients data))"

text \<open>The dictionary \<open>email_info\<close> that \<open>fetch_sent_emails\<close> builds of one message.\<close>

definition email_info_of :: "graph_message \<Rightarrow> email_info" where
  "email_info_of msg =
     \<lparr>subject = (case subject_value msg of Some s \<Rightarrow> s | None \<Rightarrow> ''No Subject''),
      sender = (case sender_address msg of Some a \<Rightarrow> a | None \<Rightarrow> ''Unknown''),
      to = map fst (toRecipients msg),
      cc = map fst (ccRecipients msg),
      bcc = map fst (bccRecipients msg),
      received = (case receivedDateTime msg of Some r \<Rightarrow> r | None \<Rightarrow> ''Unknown''),
      name_data = extract_emails msg\<rparr>"

text \<open>What \<open>requests.get\<close> returns: the status, the messages of the page, the text.\<close>

record response =
  status_code :: nat
  messages :: "graph_message list"
  response_text :: string

text \<open>
  What a run does, in the order in which it does it: the calls of \<open>should_stop\<close> with
  their answers, the requests, the sleeps, the calls of \<open>log_message\<close> by their message,
  the work handed to the executor, and the final processing.
\<close>

datatype event =
    Stop_checked bool
  | Requested_page nat
  | Slept nat
  | Logged_batch_fetched nat nat
  | Logged_attempt_failed nat nat string
  | Logged_batch_failed nat
  | Logged_batch_error nat error
  | Logged_stopped
  | Logged_no_token
  | Logged_total nat
  | Submitted nat
  | Cancelled_futures
  | Aggregated "recipient_summary list"
  | Pushed "airtable_request list"
  | Logged_final_error error

text \<open>
  The loop \<open>while retries < MAX_RETRIES\<close> of \<open>fetch_sent_emails\<close>. \<open>responses k\<close> is what
  the request made with \<open>retries = k\<close> returns, \<open>None\<close> when \<open>requests.get\<close> raises;
  \<open>email_data\<close> is the shared list when the batch is added to it under the lock. The
  result is the exception if one was raised, the shared list, and the events.
\<close>

function fetch_loop ::
  "nat \<Rightarrow> (nat \<Rightarrow> response option) \<Rightarrow> nat \<Rightarrow> email_info list \<Rightarrow> event list
     \<Rightarrow> error option \<times> email_info list \<times> event list" where
  "fetch_loop batch_number responses retries email_data trace =
     (if retries < MAX_RETRIES then
        (case responses retries of
           None \<Rightarrow>
             (Some RequestException, email_data,
              trace @ [Requested_page (batch_number * BATCH_SIZE)])
         | Some response \<Rightarrow>
             if status_code response = 200 then
               (let batch_emails = map email_info_of (messages response);
                    email_data' = email_data @ batch_emails
                in (None, email_data',
                    trace @ [Requested_page (batch_number * BATCH_SIZE),
                             Logged_batch_fetched batch_number (length email_data')]))
             else
               fetch_loop batch_number responses (retries + 1) email_data
                 (trace @ [Requested_page (batch_number * BATCH_SIZE),
                           Logged_attempt_failed batch_number (retries + 1) (response_text response),
                           Slept RETRY_DELAY]))
      else (None, email_data, trace @ [Logged_batch_failed batch_number]))"
  by pat_completeness auto

termination
  by (relation "measure (\<lambda>(batch_number, responses, retries, email_data, trace).
        MAX_RETRIES - retries)") auto

declare fetch_loop.simps [simp del]

definition fetch_sent_emails ::
  "nat \<Rightarrow> email_info list \<Rightarrow> (nat \<Rightarrow> response option)
     \<Rightarrow> error option \<times> email_info list \<times> event list" where
  "fetch_sent_emails batch_number email_data responses =
     fetch_loop batch_number responses 0 email_data []"

section \<open>The run\<close>

text \<open>
  \<open>callback_fn\<close>: \<open>None\<close>, a function without \<open>__self__\<close>, or a method bound to an object,
  which has a method \<open>should_stop\<close> or has none.
\<close>

datatype self_object = Object_with_should_stop | Object_without_should_stop

datatype callback = No_callback | Plain_function | Bound_method self_object

text \<open>
  \<open>hasattr(callback_fn, '__self__') and callback_fn.__self__.should_stop()\<close>, where
  \<open>is_stopped\<close> is what the object's \<open>should_stop\<close> returns at the moment of the call:
  for a \<open>ThreadSafeLogger\<close>, its flag \<open>is_stopped\<close>.
\<close>

definition should_stop :: "callback \<Rightarrow> bool \<Rightarrow> error + bool" where
  "should_stop callback_fn is_stopped =
     (case callback_fn of
        No_callback \<Rightarrow> Inr False
      | Plain_function \<Rightarrow> Inr False
      | Bound_method obj \<Rightarrow>
          (case obj of
             Object_with_should_stop \<Rightarrow> Inr is_stopped
           | Object_without_should_stop \<Rightarrow> Inl AttributeError))"


text \<open>
  What \<open>main\<close> is run in: the token that \<open>get_access_token\<close> returns, the count that
  \<open>get_total_email_count\<close> returns, the flag at each call of \<open>should_stop\<close> by \<open>main\<close> itself
  (the calls numbered from 0), the list \<open>email_data\<close> as the tasks have left it when the
  executor has shut down, the order of iteration of sets, and the records that
  \<open>fetch_all_airtable_records\<close> returns.
\<close>

record run =
  access_token :: "string option"
  total_emails :: nat
  is_stopped_at :: "nat \<Rightarrow> bool"
  collected :: "email_info list"
  iteration_order :: "string list \<Rightarrow> string list"
  existing_records :: "airtable_record list"

text \<open>
  \<open>for batch in range(total_batches)\<close>: the flag is read before each task is submitted,
  and \<open>main\<close> returns as soon as it is set. The result tells whether \<open>main\<close> returned, the
  number of the next call of \<open>should_stop\<close>, and the events.
\<close>

fun submit_loop ::
  "callback \<Rightarrow> (nat \<Rightarrow> bool) \<Rightarrow> nat \<Rightarrow> nat list \<Rightarrow> error + bool \<times> nat \<times> event list" where
  "submit_loop callback_fn flag k [] = Inr (False, k, [])"
| "submit_loop callback_fn flag k (batch # rest) =
     (case should_stop callback_fn (flag k) of
        Inl e \<Rightarrow> Inl e
      | Inr True \<Rightarrow> Inr (True, Suc k, [Stop_checked True, Logged_stopped, Cancelled_futures])
      | Inr False \<Rightarrow>
          (case submit_loop callback_fn flag (Suc k) rest of
             Inl e \<Rightarrow> Inl e
           | Inr (returned, k', trace) \<Rightarrow>
               Inr (returned, k', Stop_checked False # Submitted batch # trace)))"

text \<open>
  \<open>for future in as_completed(futures)\<close>: the flag is read before each result is read, and
  the loop is left as soon as it is set. A task returns \<open>None\<close> and raises nothing that
  \<open>main\<close> has not raised itself before, so reading a result is no event.
\<close>

fun completed_loop ::
  "callback \<Rightarrow> (nat \<Rightarrow> bool) \<Rightarrow> nat \<Rightarrow> nat \<Rightarrow> error + nat \<times> event list" where
  "completed_loop callback_fn flag k 0 = Inr (k, [])"
| "completed_loop callback_fn flag k (Suc futures) =
     (case should_stop callback_fn (flag k) of
        Inl e \<Rightarrow> Inl e
      | Inr True \<Rightarrow> Inr (Suc k, [Stop_checked True, Cancelled_futures])
      | Inr False \<Rightarrow>
          (case completed_loop callback_fn flag (Suc k) futures of
             Inl e \<Rightarrow> Inl e
           | Inr (k', trace) \<Rightarrow> Inr (k', Stop_checked False # trace)))"

text \<open>
  The \<open>try\<close> block at the end of \<open>main\<close>: an exception of the aggregation or of the push is
  logged. Of \<open>push_to_airtable\<close> the event keeps the requests.
\<close>

definition final_processing :: "run \<Rightarrow> event list" where
  "final_processing r =
     (case aggregate_email_data (iteration_order r) (collected r) of
        Inl e \<Rightarrow> [Logged_final_error e]
      | Inr aggregated_data \<Rightarrow>
          (case push_to_airtable (existing_records r) aggregated_data of
             Inl e \<Rightarrow> [Aggregated aggregated_data, Logged_final_error e]
           | Inr requests \<Rightarrow> [Aggregated aggregated_data, Pushed requests]))"

definition total_batches :: "nat \<Rightarrow> nat" where
  "total_batches n = n div BATCH_SIZE + (if n mod BATCH_SIZE \<noteq> 0 then 1 else 0)"

text \<open>
  \<open>main\<close>, as its own thread runs it. \<open>Inl\<close> is an exception that leaves \<open>main\<close>: that of
  \<open>should_stop\<close> on an object without the method.
\<close>

definition main :: "callback \<Rightarrow> run \<Rightarrow> error + event list" where
  "main callback_fn r =
     (case should_stop callback_fn (is_stopped_at r 0) of
        Inl e \<Rightarrow> Inl e
      | Inr True \<Rightarrow> Inr [Stop_checked True, Logged_stopped]
      | Inr False \<Rightarrow>
          if access_token r = None \<or> access_token r = Some ''''
          then Inr [Stop_checked False, Logged_no_token]
          else
            (case should_stop callback_fn (is_stopped_at r 1) of
               Inl e \<Rightarrow> Inl e
             | Inr True \<Rightarrow> Inr [Stop_checked False, Stop_checked True, Logged_stopped]
             | Inr False \<Rightarrow>
                 (case submit_loop callback_fn (is_stopped_at r) 2
                         [0..<total_batches (total_emails r)] of
                    Inl e \<Rightarrow> Inl e
                  | Inr (True, k, submitting) \<Rightarrow>
                      Inr ([Stop_checked False, Stop_checked False,
                            Logged_total (total_emails r)] @ submitting)
                  | Inr (False, k, submitting) \<Rightarrow>
                      (case completed_loop callback_fn (is_stopped_at r) k
                              (total_batches (total_emails r)) of
                         Inl e \<Rightarrow> Inl e
                       | Inr (k', completing) \<Rightarrow>
                           (case should_stop callback_fn (is_stopped_at r k') of
                              Inl e \<Rightarrow> Inl e
                            | Inr True \<Rightarrow>
                                Inr ([Stop_checked False, Stop_checked False,
                                      Logged_total (total_emails r)] @ submitting @ completing
                                     @ [Stop_checked True])
                            | Inr False \<Rightarrow>
                                Inr ([Stop_checked False, Stop_checked False,
                                      Logged_total (total_emails r)] @ submitting @ completing
                                     @ [Stop_checked False] @ final_processing r))))))"

section \<open>Properties of the aggregation\<close>

lemma split_acc_nonempty: "split_acc sep acc s \<noteq> []"
  by (induction s arbitrary: acc) auto

lemma occurrences_recipients: "int (count_list (recipients email) r) = occurrences email r"
  by (simp add: recipients_def occurrences_def)

lemma occurrences_zero: "r \<notin> set (recipients email) \<Longrightarrow> occurrences email r = 0"
  by (simp add: recipients_def occurrences_def)

lemma aggregate_recipient_Inr:
  assumes "aggregate_recipient e r st = Inr st'"
  shows "format_date_for_airtable (received e) \<noteq> None
           \<and> map_of st' = (map_of st)(r \<mapsto> merged e r (map_of st r))
           \<and> Last_Interacted_Date (merged e r (map_of st r)) \<noteq> None"
  using assms
  by (auto simp: aggregate_recipient_def Let_def py_max_def first_sight_def merged_def update_conv'
        occurrences_recipients max_def
      split: option.splits if_splits sum.splits)

lemma aggregate_recipient_None:
  assumes "format_date_for_airtable (received e) = None"
  shows "aggregate_recipient e r st = Inl TypeError"
  using assms
  by (auto simp: aggregate_recipient_def Let_def py_max_def update_conv' split: option.splits)

lemma aggregate_recipient_Inl:
  assumes "aggregate_recipient e r st = Inl err"
  shows "err = TypeError"
  using assms
  by (auto simp: aggregate_recipient_def Let_def py_max_def update_conv'
      split: option.splits if_splits)

lemma aggregate_recipients_Inr:
  assumes "aggregate_recipients e rs st = Inr st'" and "distinct rs"
  shows "map_of st' r = (if r \<in> set rs then Some (merged e r (map_of st r)) else map_of st r)"
  using assms
proof (induction rs arbitrary: st)
  case Nil
  then show ?case by simp
next
  case (Cons a rs)
  from Cons.prems obtain st1 where
    a: "aggregate_recipient e a st = Inr st1" and rest: "aggregate_recipients e rs st1 = Inr st'"
    by (auto split: sum.splits)
  from aggregate_recipient_Inr [OF a]
  have m: "map_of st1 = (map_of st)(a \<mapsto> merged e a (map_of st a))" by simp
  from Cons.prems have "a \<notin> set rs" "distinct rs" by simp_all
  with Cons.IH [OF rest] m show ?case by auto
qed

lemma aggregate_recipients_parsed:
  assumes "aggregate_recipients e rs st = Inr st'" and "rs \<noteq> []"
  shows "format_date_for_airtable (received e) \<noteq> None"
  using assms aggregate_recipient_Inr
  by (cases rs) (auto split: sum.splits)

lemma aggregate_recipients_None:
  assumes "format_date_for_airtable (received e) = None" and "rs \<noteq> []"
  shows "aggregate_recipients e rs st = Inl TypeError"
  using assms by (cases rs) (simp_all add: aggregate_recipient_None)

lemma aggregate_recipients_Inl:
  assumes "aggregate_recipients e rs st = Inl err"
  shows "err = TypeError"
  using assms
  by (induction rs arbitrary: st) (auto split: sum.splits dest: aggregate_recipient_Inl)

lemma set_iteration_distinct: "set_iteration it \<Longrightarrow> distinct (it xs)"
  by (simp add: set_iteration_def)

lemma set_iteration_set: "set_iteration it \<Longrightarrow> set (it xs) = set xs"
  by (simp add: set_iteration_def)

lemma set_iteration_Nil: "set_iteration it \<Longrightarrow> it xs = [] \<longleftrightarrow> xs = []"
  using set_iteration_set [of it xs] by (metis set_empty)

lemma set_iteration_remdups: "set_iteration remdups"
  by (simp add: set_iteration_def)

lemma aggregate_emails_append:
  "aggregate_emails it (xs @ ys) st =
     (case aggregate_emails it xs st of Inl err \<Rightarrow> Inl err | Inr st1 \<Rightarrow> aggregate_emails it ys st1)"
  by (induction xs arbitrary: st) (auto split: sum.splits)

lemma aggregate_emails_Inl:
  assumes "aggregate_emails it ed st = Inl err"
  shows "err = TypeError"
  using assms
  by (induction ed arbitrary: st) (auto split: sum.splits dest: aggregate_recipients_Inl)

lemma aggregate_emails_snoc_Inr:
  assumes "aggregate_emails it (ed @ [e]) st = Inr st'"
  obtains st1 where "aggregate_emails it ed st = Inr st1"
    and "aggregate_recipients e (it (recipients e)) st1 = Inr st'"
  using assms by (auto simp: aggregate_emails_append split: sum.splits)

lemma contributing_snoc:
  "contributing (ed @ [e]) r =
     contributing ed r @ (if r \<in> set (recipients e) then [e] else [])"
  by (simp add: contributing_def)

lemma contributing_empty_total:
  "contributing ed r = [] \<Longrightarrow> (\<Sum>email\<leftarrow>ed. occurrences email r) = 0"
  by (induction ed) (auto simp: contributing_def occurrences_zero split: if_splits)

lemma contributing_dates_snoc:
  "contributing_dates (ed @ [e]) r =
     contributing_dates ed r @
       (if r \<in> set (recipients e)
        then (case format_date_for_airtable (received e) of None \<Rightarrow> [] | Some d \<Rightarrow> [d])
        else [])"
  by (simp add: contributing_dates_def contributing_snoc map_filter_def split: option.splits)

lemma contributing_dates_nonempty:
  assumes "e \<in> set (contributing ed r)" and "format_date_for_airtable (received e) = Some d"
  shows "d \<in> set (contributing_dates ed r)"
  using assms by (force simp: contributing_dates_def map_filter_def)

lemma aggregate_emails_characterised:
  assumes "set_iteration it" and "aggregate_emails it ed [] = Inr st"
  shows "map_of st r = expected_summary ed r
           \<and> list_all (\<lambda>e. format_date_for_airtable (received e) \<noteq> None) (contributing ed r)"
  using assms(2)
proof (induction ed arbitrary: st rule: rev_induct)
  case Nil
  then show ?case by (simp add: expected_summary_def contributing_def)
next
  case (snoc e ed)
  from snoc.prems obtain st1 where
    st1: "aggregate_emails it ed [] = Inr st1"
    and step: "aggregate_recipients e (it (recipients e)) st1 = Inr st"
    by (rule aggregate_emails_snoc_Inr)
  note IH = snoc.IH [OF st1]
  have lookup: "map_of st r =
      (if r \<in> set (recipients e) then Some (merged e r (map_of st1 r)) else map_of st1 r)"
    using aggregate_recipients_Inr [OF step set_iteration_distinct [OF assms(1)], of r]
      set_iteration_set [OF assms(1), of "recipients e"]
    by simp
  show ?case
  proof (cases "r \<in> set (recipients e)")
    case False
    then show ?thesis
      using IH lookup
      by (simp add: expected_summary_def contributing_snoc contributing_dates_snoc
            occurrences_zero split: list.splits)
  next
    case True
    then have "it (recipients e) \<noteq> []"
      using set_iteration_Nil [OF assms(1), of "recipients e"] by auto
    from aggregate_recipients_parsed [OF step this]
    obtain d where d: "format_date_for_airtable (received e) = Some d" by auto
    show ?thesis
    proof (cases "contributing ed r")
      case Nil
      then show ?thesis
        using IH lookup True d
        by (simp add: expected_summary_def contributing_snoc contributing_dates_snoc
              merged_def first_sight_def contributing_empty_total contributing_dates_def
              map_filter_def)
    next
      case (Cons e0 es)
      from IH Cons obtain d0 where "format_date_for_airtable (received e0) = Some d0"
        by auto
      then have "d0 \<in> set (contributing_dates ed r)"
        using Cons contributing_dates_nonempty [of e0 ed r d0] by simp
      then have ne: "set (contributing_dates ed r) \<noteq> {}" by auto
      have "Max (insert d (set (contributing_dates ed r))) = max d (Max (set (contributing_dates ed r)))"
        using ne by (simp add: Max_insert)
      then show ?thesis
        using IH lookup True d Cons
        by (simp add: expected_summary_def contributing_snoc contributing_dates_snoc
              merged_def max.commute)
    qed
  qed
qed

lemma list_all_update:
  assumes "list_all P al" and "P (k, v)"
  shows "list_all P (AList.update k v al)"
  using assms by (induction al) auto

lemma map_of_list_all:
  assumes "list_all P al" and "map_of al k = Some v"
  shows "P (k, v)"
  using assms by (induction al) (auto split: if_splits)

lemma aggregate_recipient_keys_ok:
  assumes "aggregate_recipient e r st = Inr st'" and "keys_ok st"
  shows "keys_ok st'"
proof -
  let ?P = "\<lambda>(k, s). Recipient_Email s = k"
  let ?st1 = "if map_of st r = None then AList.update r (first_sight e r) st else st"
  have st1: "list_all ?P ?st1"
    using assms(2) by (auto simp: keys_ok_def first_sight_def intro!: list_all_update)
  from assms(1) obtain entry d where
    entry: "map_of ?st1 r = Some entry"
    and st': "st' = AList.update r (entry\<lparr>Total_Mails_Sent :=
                  Total_Mails_Sent entry + int (count_list (recipients e) r),
                  Last_Interacted_Date := d\<rparr>) ?st1"
    by (auto simp: aggregate_recipient_def Let_def first_sight_def
          split: option.splits sum.splits if_splits)
  from map_of_list_all [OF st1 entry] have "Recipient_Email entry = r" by simp
  then show ?thesis
    unfolding keys_ok_def st' by (intro list_all_update st1) simp
qed

lemma aggregate_recipients_keys_ok:
  assumes "aggregate_recipients e rs st = Inr st'" and "keys_ok st"
  shows "keys_ok st'"
  using assms
  by (induction rs arbitrary: st) (auto split: sum.splits dest: aggregate_recipient_keys_ok)

lemma aggregate_emails_keys_ok:
  assumes "aggregate_emails it ed st = Inr st'" and "keys_ok st"
  shows "keys_ok st'"
  using assms
  by (induction ed arbitrary: st) (auto split: sum.splits dest: aggregate_recipients_keys_ok)

lemma summary_of_map_snd:
  assumes "keys_ok st"
  shows "summary_of (map snd st) r = map_of st r"
  using assms by (induction st) (auto simp: keys_ok_def summary_of_def)

lemma aggregate_email_data_Inr:
  assumes "set_iteration it" and "aggregate_email_data it ed = Inr data"
  shows "summary_of data r = expected_summary ed r"
    and "list_all (\<lambda>e. format_date_for_airtable (received e) \<noteq> None) (contributing ed r)"
proof -
  from assms obtain st where st: "aggregate_emails it ed [] = Inr st" and data: "data = map snd st"
    by (auto simp: aggregate_email_data_def split: sum.splits)
  have "keys_ok st"
    using aggregate_emails_keys_ok [OF st] by (simp add: keys_ok_def)
  then show "summary_of data r = expected_summary ed r"
    using aggregate_emails_characterised [OF assms(1) st, of r] data
    by (simp add: summary_of_map_snd)
  show "list_all (\<lambda>e. format_date_for_airtable (received e) \<noteq> None) (contributing ed r)"
    using aggregate_emails_characterised [OF assms(1) st, of r] by simp
qed

text \<open>Totality when dates parse.\<close>

lemma aggregate_recipient_total:
  assumes "format_date_for_airtable (received e) = Some d" and "dates_ok st"
  shows "\<exists>st'. aggregate_recipient e r st = Inr st' \<and> dates_ok st'"
proof (cases "map_of st r")
  case None
  then show ?thesis
    using assms
    by (auto simp: aggregate_recipient_def Let_def py_max_def update_conv' dates_ok_def
        intro!: list_all_update)
next
  case (Some entry)
  with assms(2) have "Last_Interacted_Date entry \<noteq> None"
    using map_of_list_all [of _ st r entry] by (auto simp: dates_ok_def)
  then show ?thesis
    using assms Some
    by (auto simp: aggregate_recipient_def Let_def py_max_def dates_ok_def
        intro!: list_all_update)
qed

lemma aggregate_recipients_total:
  assumes "format_date_for_airtable (received e) = Some d" and "dates_ok st"
  shows "\<exists>st'. aggregate_recipients e rs st = Inr st' \<and> dates_ok st'"
  using assms(2)
proof (induction rs arbitrary: st)
  case Nil
  then show ?case by simp
next
  case (Cons r rs)
  from aggregate_recipient_total [OF assms(1) Cons.prems, of r]
  obtain st1 where "aggregate_recipient e r st = Inr st1" "dates_ok st1" by auto
  with Cons.IH [of st1] show ?case by auto
qed

lemma aggregate_emails_total:
  assumes "set_iteration it" and "list_all (\<lambda>e. \<not> unparsed e) ed" and "dates_ok st"
  shows "\<exists>st'. aggregate_emails it ed st = Inr st' \<and> dates_ok st'"
  using assms(2,3)
proof (induction ed arbitrary: st)
  case Nil
  then show ?case by simp
next
  case (Cons e ed)
  have "\<exists>st1. aggregate_recipients e (it (recipients e)) st = Inr st1 \<and> dates_ok st1"
  proof (cases "recipients e = []")
    case True
    then show ?thesis using Cons.prems set_iteration_Nil [OF assms(1), of "recipients e"] by simp
  next
    case False
    with Cons.prems obtain d where "format_date_for_airtable (received e) = Some d"
      by (auto simp: unparsed_def)
    from aggregate_recipients_total [OF this Cons.prems(2)] show ?thesis .
  qed
  then obtain st1 where "aggregate_recipients e (it (recipients e)) st = Inr st1" "dates_ok st1"
    by auto
  with Cons.IH [of st1] Cons.prems show ?case by auto
qed

lemma aggregate_emails_raises:
  assumes "set_iteration it" and "e \<in> set ed" and "unparsed e"
  shows "aggregate_emails it ed st = Inl TypeError"
  using assms(2,3)
proof (induction ed arbitrary: st)
  case Nil
  then show ?case by simp
next
  case (Cons a ed)
  show ?case
  proof (cases "aggregate_recipients a (it (recipients a)) st")
    case (Inl err)
    then show ?thesis using aggregate_recipients_Inl [OF Inl] by simp
  next
    case (Inr st1)
    have "a \<noteq> e"
    proof
      assume "a = e"
      with Cons.prems have "it (recipients a) \<noteq> []"
        and "format_date_for_airtable (received a) = None"
        using set_iteration_Nil [OF assms(1), of "recipients a"] by (auto simp: unparsed_def)
      from aggregate_recipients_None [OF this(2,1)] Inr show False by simp
    qed
    with Cons.prems have "e \<in> set ed" by simp
    from Cons.IH [OF this Cons.prems(2)] Inr show ?thesis by simp
  qed
qed

lemma aggregate_email_data_cases:
  assumes "set_iteration it"
  shows "if list_ex unparsed ed then aggregate_email_data it ed = Inl TypeError
         else (\<exists>data. aggregate_email_data it ed = Inr data)"
proof (cases "list_ex unparsed ed")
  case True
  then obtain e where "e \<in> set ed" "unparsed e" by (auto simp: list_ex_iff)
  from aggregate_emails_raises [OF assms this] True show ?thesis
    by (simp add: aggregate_email_data_def)
next
  case False
  then have "list_all (\<lambda>e. \<not> unparsed e) ed" by (auto simp: list_ex_iff list_all_iff)
  from aggregate_emails_total [OF assms this, of "[]"] False show ?thesis
    by (auto simp: aggregate_email_data_def dates_ok_def)
qed

section \<open>Formatted dates are ordered as the calendar\<close>






















lemma format_date_Some:
  assumes "format_date_for_airtable s = Some d"
  shows "\<exists>dt. strptime s = Some dt \<and> valid_datetime dt \<and> d = strftime dt"
  using assms
  by (auto simp: format_date_for_airtable_def strptime_def
      split: option.splits list.splits if_splits prod.splits)

section \<open>Evaluating the model on concrete messages\<close>

lemmas date_defs = format_date_for_airtable_def strptime_def format_regex_match_def re_Y_def
  re_m_def re_d_def re_H_def re_M_def re_S_def d1_def d2_def space_d1_def lit_def digits_def
  nonzero_digits_def digit_val_def valid_datetime_def days_in_month_def is_leap_def strftime_def
  pad2_def decimal.simps digit_char_def List.bind_def

lemma format_date_jan15: "format_date_for_airtable ''2024-01-15T10:30:00Z'' = Some ''2024/01/15''"
  by (simp add: date_defs)

lemma format_date_mar01: "format_date_for_airtable ''2024-03-01T00:00:00Z'' = Some ''2024/03/01''"
  by (simp add: date_defs)


lemma format_date_Unknown: "format_date_for_airtable ''Unknown'' = None"
  by (simp add: date_defs)

lemma format_date_fractional: "format_date_for_airtable ''2024-01-15T10:30:00.123Z'' = None"
  by (simp add: date_defs)



lemma contributing_mem:
  "email \<in> set email_data \<Longrightarrow> recipient \<in> set (recipients email)
     \<Longrightarrow> email \<in> set (contributing email_data recipient)"
  by (simp add: contributing_def)

lemma occurrences_sum:
  "(\<Sum>m\<leftarrow>email_data. occurrences m r) =
     (\<Sum>m\<leftarrow>email_data. int (count_list (to m) r) + int (count_list (cc m) r)
        + int (count_list (bcc m) r))"
  by (simp add: occurrences_def)

lemmas aggregate_defs = aggregate_email_data_def aggregate_recipient_def recipients_def mail_def
  py_max_def domain_of_def split_def Let_def


lemma string_less_2024_999: "(''2024/01/15'' :: string) < ''999/12/31''"
  by (simp add: less_char_def)

lemma parsed_or_no_recipient:
  "(\<forall>message\<in>set email_data.
      recipients message = [] \<or> format_date_for_airtable (received message) \<noteq> None)
   \<longleftrightarrow> \<not> list_ex unparsed email_data"
  by (auto simp: list_ex_iff unparsed_def)

lemma aggregate_two_names:
  "aggregate_email_data remdups
     [mail [''a@x.com''] [] [] ''2024-01-15T10:30:00Z'' [''a@x.com'' \<mapsto> ''Alice''],
      mail [''a@x.com''] [] [] ''2024-03-01T00:00:00Z'' [''a@x.com'' \<mapsto> ''Alice Smith'']] =
   Inr [\<lparr>Recipient_Email = ''a@x.com'', Company_Management = ''x.com'', Total_Mails_Sent = 2,
          Name = ''Alice'', Last_Interacted_Date = Some ''2024/03/01''\<rparr>]"
  by (simp add: aggregate_defs format_date_jan15 format_date_mar01 less_char_def)

lemma aggregate_two_names_reversed:
  "aggregate_email_data remdups
     [mail [''a@x.com''] [] [] ''2024-03-01T00:00:00Z'' [''a@x.com'' \<mapsto> ''Alice Smith''],
      mail [''a@x.com''] [] [] ''2024-01-15T10:30:00Z'' [''a@x.com'' \<mapsto> ''Alice'']] =
   Inr [\<lparr>Recipient_Email = ''a@x.com'', Company_Management = ''x.com'', Total_Mails_Sent = 2,
          Name = ''Alice Smith'', Last_Interacted_Date = Some ''2024/03/01''\<rparr>]"
  by (simp add: aggregate_defs format_date_jan15 format_date_mar01 less_char_def)


lemma aggregate_no_recipient:
  "aggregate_email_data remdups [mail [] [] [] ''Unknown'' Map.empty] = Inr []"
  by (simp add: aggregate_defs)

section \<open>Aggregating a permutation\<close>

lemma list_ex_unparsed_mset:
  assumes "mset ed' = mset ed"
  shows "list_ex unparsed ed' = list_ex unparsed ed"
  using mset_eq_setD [OF assms] by (simp add: list_ex_iff)

lemma sum_list_mset:
  fixes f :: "'a \<Rightarrow> int"
  assumes "mset ed' = mset ed"
  shows "(\<Sum>e\<leftarrow>ed'. f e) = (\<Sum>e\<leftarrow>ed. f e)"
proof -
  have "(\<Sum>e\<leftarrow>ed'. f e) = sum_mset (image_mset f (mset ed'))"
    by (metis mset_map sum_mset_sum_list)
  also have "\<dots> = sum_mset (image_mset f (mset ed))" by (simp add: assms)
  also have "\<dots> = (\<Sum>e\<leftarrow>ed. f e)" by (metis mset_map sum_mset_sum_list)
  finally show ?thesis .
qed


lemma set_contributing_dates:
  "set (contributing_dates ed r) =
     {d. \<exists>e\<in>set ed. r \<in> set (recipients e) \<and> format_date_for_airtable (received e) = Some d}"
  by (force simp: contributing_dates_def map_filter_def contributing_def image_iff)

lemma contributing_Nil_iff: "contributing ed r = [] \<longleftrightarrow> (\<forall>e\<in>set ed. r \<notin> set (recipients e))"
  by (auto simp: contributing_def filter_empty_conv)

lemma expected_summary_mset:
  assumes "mset ed' = mset ed"
  shows "map_option without_name (expected_summary ed' r) =
         map_option without_name (expected_summary ed r)"
proof -
  have s: "set ed' = set ed" using mset_eq_setD [OF assms] .
  have dates: "set (contributing_dates ed' r) = set (contributing_dates ed r)"
    by (simp add: set_contributing_dates s)
  have total: "(\<Sum>e\<leftarrow>ed'. occurrences e r) = (\<Sum>e\<leftarrow>ed. occurrences e r)"
    using assms by (rule sum_list_mset)
  have nil: "contributing ed' r = [] \<longleftrightarrow> contributing ed r = []"
    by (simp add: contributing_Nil_iff s)
  show ?thesis
  proof (cases "contributing ed r")
    case Nil
    with nil show ?thesis by (simp add: expected_summary_def)
  next
    case (Cons e es)
    with nil obtain e' es' where "contributing ed' r = e' # es'"
      by (cases "contributing ed' r") auto
    with Cons dates total show ?thesis
      by (simp add: expected_summary_def without_name_def)
  qed
qed

lemma find_filter_hd:
  "find P xs = (case filter P xs of [] \<Rightarrow> None | x # _ \<Rightarrow> Some x)"
  by (induction xs) auto

lemma expected_summary_Name:
  assumes "expected_summary ed r = Some entry"
  shows "\<exists>first. find (\<lambda>message. r \<in> set (recipients message)) ed = Some first \<and>
           Name entry = (case name_data first r of Some n \<Rightarrow> n | None \<Rightarrow> '''')"
  using assms
  by (auto simp: expected_summary_def find_filter_hd contributing_def split: list.splits)

section \<open>The latest date\<close>



section \<open>Claims about the aggregation\<close>

text \<open>
  Claim C4. For a list of source records and a recipient that occurs in one of them, the
  Total Mails Sent that \<open>aggregate_email_data\<close> returns for the recipient is the sum, over
  all the records of the list, of the recipient's occurrences in \<open>to\<close>, in \<open>cc\<close> and in
  \<open>bcc\<close>. This holds, and the aggregate exists, when every record that names a recipient
  carries a received timestamp of the format; it holds whatever the order the recipients
  of a message are taken in.
\<close>

theorem total_mails_sent_is_sum_of_occurrences:
  assumes "set_iteration iteration"
    and "\<forall>message\<in>set email_data.
           recipients message = [] \<or> format_date_for_airtable (received message) \<noteq> None"
    and "email \<in> set email_data" and "recipient \<in> set (recipients email)"
  shows "\<exists>aggregated entry.
           aggregate_email_data iteration email_data = Inr aggregated \<and>
           summary_of aggregated recipient = Some entry \<and>
           Total_Mails_Sent entry =
             (\<Sum>m\<leftarrow>email_data. int (count_list (to m) recipient)
                + int (count_list (cc m) recipient) + int (count_list (bcc m) recipient))"
proof -
  from assms(2) have "\<not> list_ex unparsed email_data"
    using parsed_or_no_recipient [of email_data] by blast
  with aggregate_email_data_cases [OF assms(1), of email_data]
  obtain aggregated where agg: "aggregate_email_data iteration email_data = Inr aggregated"
    by auto
  from contributing_mem [OF assms(3,4)]
  obtain first rest where "contributing email_data recipient = first # rest"
    by (cases "contributing email_data recipient") auto
  with aggregate_email_data_Inr(1) [OF assms(1) agg, of recipient] agg show ?thesis
    by (simp add: expected_summary_def occurrences_sum)
qed

text \<open>
  Two messages name \<open>a@x.com\<close>: the first in \<open>to\<close> and in \<open>cc\<close>, the second in \<open>bcc\<close>.
  Its total is 3.
\<close>

theorem total_mails_sent_is_sum_of_occurrences_witness:
  "\<exists>aggregated entry.
     aggregate_email_data remdups
       [mail [''a@x.com''] [''a@x.com'', ''b@y.org''] [] ''2024-01-15T10:30:00Z''
          [''a@x.com'' \<mapsto> ''Alice'', ''b@y.org'' \<mapsto> ''Bob''],
        mail [''b@y.org''] [] [''a@x.com''] ''2024-03-01T00:00:00Z''
          [''a@x.com'' \<mapsto> ''Alice'', ''b@y.org'' \<mapsto> ''Bob'']] = Inr aggregated \<and>
     summary_of aggregated ''a@x.com'' = Some entry \<and> Total_Mails_Sent entry = 3"
  using total_mails_sent_is_sum_of_occurrences [OF set_iteration_remdups,
      of "[mail [''a@x.com''] [''a@x.com'', ''b@y.org''] [] ''2024-01-15T10:30:00Z''
            [''a@x.com'' \<mapsto> ''Alice'', ''b@y.org'' \<mapsto> ''Bob''],
          mail [''b@y.org''] [] [''a@x.com''] ''2024-03-01T00:00:00Z''
            [''a@x.com'' \<mapsto> ''Alice'', ''b@y.org'' \<mapsto> ''Bob'']]"
      "mail [''a@x.com''] [''a@x.com'', ''b@y.org''] [] ''2024-01-15T10:30:00Z''
            [''a@x.com'' \<mapsto> ''Alice'', ''b@y.org'' \<mapsto> ''Bob'']"
      "''a@x.com''"]
  by (simp add: mail_def recipients_def format_date_jan15 format_date_mar01)

text \<open>
  The claim as it is written, for every list, fails on a message built from a response
  without \<open>receivedDateTime\<close>: its timestamp is \<open>Unknown\<close>, and the aggregation raises.
\<close>

theorem total_mails_sent_unknown_date_raises:
  "aggregate_email_data remdups
     [mail [''a@x.com''] [] [] ''Unknown'' [''a@x.com'' \<mapsto> ''Alice'']] = Inl TypeError"
  by (simp add: aggregate_defs format_date_Unknown)

text \<open>
  Claim C9. \<open>aggregate_email_data\<close> raises \<open>TypeError\<close>, and returns no aggregate, exactly
  when the list holds a record that names at least one recipient and whose received
  timestamp \<open>format_date_for_airtable\<close> turns into \<open>None\<close>; on every other list, so on
  every list whose timestamps all parse, it returns an aggregate. The error is that of
  \<open>max\<close> on \<open>None\<close>, the only one the aggregation can raise.
\<close>

theorem aggregation_raises_on_unparsed_record_with_recipient:
  assumes "set_iteration iteration"
  shows "if \<exists>email\<in>set email_data.
              recipients email \<noteq> [] \<and> format_date_for_airtable (received email) = None
         then aggregate_email_data iteration email_data = Inl TypeError
         else \<exists>aggregated. aggregate_email_data iteration email_data = Inr aggregated"
proof -
  have "list_ex unparsed email_data \<longleftrightarrow>
      (\<exists>email\<in>set email_data.
         recipients email \<noteq> [] \<and> format_date_for_airtable (received email) = None)"
    by (simp add: list_ex_iff unparsed_def)
  with aggregate_email_data_cases [OF assms, of email_data] show ?thesis by simp
qed

text \<open>
  A timestamp with a fraction of a second makes the aggregation raise; a list whose only
  unparsed record names nobody is aggregated.
\<close>

theorem aggregation_raises_on_unparsed_record_with_recipient_witness:
  "aggregate_email_data remdups
     [mail [''a@x.com''] [] [] ''2024-01-15T10:30:00Z'' [''a@x.com'' \<mapsto> ''Alice''],
      mail [''b@y.org''] [] [] ''2024-01-15T10:30:00.123Z'' [''b@y.org'' \<mapsto> ''Bob'']] =
     Inl TypeError
   \<and> (\<exists>aggregated.
        aggregate_email_data remdups
          [mail [''a@x.com''] [] [] ''2024-01-15T10:30:00Z'' [''a@x.com'' \<mapsto> ''Alice''],
           mail [] [] [] ''Unknown'' Map.empty] = Inr aggregated)"
  using
    aggregation_raises_on_unparsed_record_with_recipient [OF set_iteration_remdups,
      of "[mail [''a@x.com''] [] [] ''2024-01-15T10:30:00Z'' [''a@x.com'' \<mapsto> ''Alice''],
           mail [''b@y.org''] [] [] ''2024-01-15T10:30:00.123Z'' [''b@y.org'' \<mapsto> ''Bob'']]"]
    aggregation_raises_on_unparsed_record_with_recipient [OF set_iteration_remdups,
      of "[mail [''a@x.com''] [] [] ''2024-01-15T10:30:00Z'' [''a@x.com'' \<mapsto> ''Alice''],
           mail [] [] [] ''Unknown'' Map.empty]"]
  by (simp add: mail_def recipients_def format_date_jan15 format_date_fractional
      format_date_Unknown)

text \<open>
  The claim as it is written, for every list with a record whose timestamp does not parse,
  fails on a record that names no recipient: the inner loop does not run for it.
\<close>

theorem unparsed_record_without_recipient_is_aggregated:
  "format_date_for_airtable ''Unknown'' = None
   \<and> aggregate_email_data remdups [mail [] [] [] ''Unknown'' Map.empty] = Inr []"
  by (simp add: format_date_Unknown aggregate_no_recipient)

text \<open>
  Claim C1. Aggregating a permutation of a list raises when aggregating the list raises,
  and otherwise gives, for every recipient, the same Recipient Email, Company / Management,
  Total Mails Sent and Last Interacted Date, whatever the orders in which the recipients
  of a message are taken. The Name is not part of this: it is the name that the first
  record of the list that names the recipient gives.
\<close>

theorem aggregation_of_permutation_agrees_except_name:
  assumes "set_iteration iteration" and "set_iteration iteration'"
    and "mset permuted = mset email_data"
  shows "case aggregate_email_data iteration email_data of
           Inl err \<Rightarrow> aggregate_email_data iteration' permuted = Inl err
         | Inr aggregated \<Rightarrow>
             (\<exists>aggregated'.
                aggregate_email_data iteration' permuted = Inr aggregated' \<and>
                (\<forall>recipient.
                   map_option without_name (summary_of aggregated' recipient) =
                   map_option without_name (summary_of aggregated recipient)) \<and>
                (\<forall>recipient entry.
                   summary_of aggregated recipient = Some entry \<longrightarrow>
                   (\<exists>first.
                      find (\<lambda>message. recipient \<in> set (recipients message)) email_data
                        = Some first \<and>
                      Name entry = (case name_data first recipient of Some n \<Rightarrow> n | None \<Rightarrow> ''''))))"
proof (cases "list_ex unparsed email_data")
  case True
  then have "list_ex unparsed permuted" using list_ex_unparsed_mset [OF assms(3)] by simp
  with True aggregate_email_data_cases [OF assms(1), of email_data]
    aggregate_email_data_cases [OF assms(2), of permuted]
  show ?thesis by simp
next
  case False
  then have "\<not> list_ex unparsed permuted" using list_ex_unparsed_mset [OF assms(3)] by simp
  with False aggregate_email_data_cases [OF assms(1), of email_data]
    aggregate_email_data_cases [OF assms(2), of permuted]
  obtain aggregated aggregated' where
    agg: "aggregate_email_data iteration email_data = Inr aggregated"
    and agg': "aggregate_email_data iteration' permuted = Inr aggregated'"
    by auto
  have "map_option without_name (summary_of aggregated' recipient) =
        map_option without_name (summary_of aggregated recipient)" for recipient
    using aggregate_email_data_Inr(1) [OF assms(1) agg, of recipient]
      aggregate_email_data_Inr(1) [OF assms(2) agg', of recipient]
      expected_summary_mset [OF assms(3), of recipient]
    by simp
  moreover have "\<exists>first.
      find (\<lambda>message. recipient \<in> set (recipients message)) email_data = Some first \<and>
      Name entry = (case name_data first recipient of Some n \<Rightarrow> n | None \<Rightarrow> '''')"
    if "summary_of aggregated recipient = Some entry" for recipient entry
    using that aggregate_email_data_Inr(1) [OF assms(1) agg, of recipient]
    by (intro expected_summary_Name) simp
  ultimately show ?thesis using agg agg' by simp
qed

lemma set_iteration_rev_remdups: "set_iteration (\<lambda>xs. rev (remdups xs))"
  by (simp add: set_iteration_def)

lemma aggregate_two_recipients:
  "aggregate_email_data remdups
     [mail [''a@x.com'', ''b@y.org''] [] [] ''2024-01-15T10:30:00Z''
        [''a@x.com'' \<mapsto> ''Alice'', ''b@y.org'' \<mapsto> ''Bob''],
      mail [''a@x.com''] [] [] ''2024-03-01T00:00:00Z'' [''a@x.com'' \<mapsto> ''Alice Smith'']] =
   Inr [\<lparr>Recipient_Email = ''a@x.com'', Company_Management = ''x.com'', Total_Mails_Sent = 2,
          Name = ''Alice'', Last_Interacted_Date = Some ''2024/03/01''\<rparr>,
        \<lparr>Recipient_Email = ''b@y.org'', Company_Management = ''y.org'', Total_Mails_Sent = 1,
          Name = ''Bob'', Last_Interacted_Date = Some ''2024/01/15''\<rparr>]"
  by (simp add: aggregate_defs format_date_jan15 format_date_mar01 less_char_def)

text \<open>
  Two messages to \<open>a@x.com\<close>, the first also to \<open>b@y.org\<close>, aggregated in the other order of
  the messages and with the other order of iteration: the totals and the dates are those
  of the first order.
\<close>

theorem aggregation_of_permutation_agrees_except_name_witness:
  "\<exists>aggregated'.
     aggregate_email_data (\<lambda>xs. rev (remdups xs))
       [mail [''a@x.com''] [] [] ''2024-03-01T00:00:00Z'' [''a@x.com'' \<mapsto> ''Alice Smith''],
        mail [''a@x.com'', ''b@y.org''] [] [] ''2024-01-15T10:30:00Z''
          [''a@x.com'' \<mapsto> ''Alice'', ''b@y.org'' \<mapsto> ''Bob'']]
       = Inr aggregated' \<and>
     map_option without_name (summary_of aggregated' ''a@x.com'') =
       Some (''a@x.com'', ''x.com'', 2, Some ''2024/03/01'') \<and>
     map_option without_name (summary_of aggregated' ''b@y.org'') =
       Some (''b@y.org'', ''y.org'', 1, Some ''2024/01/15'')"
proof -
  let ?m1 = "mail [''a@x.com'', ''b@y.org''] [] [] ''2024-01-15T10:30:00Z''
               [''a@x.com'' \<mapsto> ''Alice'', ''b@y.org'' \<mapsto> ''Bob'']"
  let ?m2 = "mail [''a@x.com''] [] [] ''2024-03-01T00:00:00Z'' [''a@x.com'' \<mapsto> ''Alice Smith'']"
  from aggregation_of_permutation_agrees_except_name
    [OF set_iteration_remdups set_iteration_rev_remdups, of "[?m2, ?m1]" "[?m1, ?m2]"]
  obtain aggregated' where
    agg': "aggregate_email_data (\<lambda>xs. rev (remdups xs)) [?m2, ?m1] = Inr aggregated'"
    and same: "\<And>recipient. map_option without_name (summary_of aggregated' recipient) =
                 map_option without_name
                   (summary_of
                      [\<lparr>Recipient_Email = ''a@x.com'', Company_Management = ''x.com'',
                         Total_Mails_Sent = 2, Name = ''Alice'',
                         Last_Interacted_Date = Some ''2024/03/01''\<rparr>,
                       \<lparr>Recipient_Email = ''b@y.org'', Company_Management = ''y.org'',
                         Total_Mails_Sent = 1, Name = ''Bob'',
                         Last_Interacted_Date = Some ''2024/01/15''\<rparr>] recipient)"
    by (auto simp: aggregate_two_recipients)
  from same [of "''a@x.com''"] same [of "''b@y.org''"] agg' show ?thesis
    by (simp add: summary_of_def without_name_def)
qed

text \<open>
  The claim as it is written, with the Name among the fields that do not depend on the
  order, fails on two messages that give the same address two display names.
\<close>

theorem name_depends_on_order:
  "aggregate_email_data remdups
     [mail [''a@x.com''] [] [] ''2024-01-15T10:30:00Z'' [''a@x.com'' \<mapsto> ''Alice''],
      mail [''a@x.com''] [] [] ''2024-03-01T00:00:00Z'' [''a@x.com'' \<mapsto> ''Alice Smith'']] =
   Inr [\<lparr>Recipient_Email = ''a@x.com'', Company_Management = ''x.com'', Total_Mails_Sent = 2,
          Name = ''Alice'', Last_Interacted_Date = Some ''2024/03/01''\<rparr>]
   \<and> aggregate_email_data remdups
     (rev [mail [''a@x.com''] [] [] ''2024-01-15T10:30:00Z'' [''a@x.com'' \<mapsto> ''Alice''],
           mail [''a@x.com''] [] [] ''2024-03-01T00:00:00Z'' [''a@x.com'' \<mapsto> ''Alice Smith'']]) =
   Inr [\<lparr>Recipient_Email = ''a@x.com'', Company_Management = ''x.com'', Total_Mails_Sent = 2,
          Name = ''Alice Smith'', Last_Interacted_Date = Some ''2024/03/01''\<rparr>]"
  using aggregate_two_names aggregate_two_names_reversed by simp







section \<open>Evaluating the reconciliation\<close>

lemma lower_Alice: "lower (strip ''Alice@X.com'') = ''alice@x.com''"
  by (simp add: lower_def strip_def isspace_def lower_char_def Let_def)

lemma lower_spaces: "lower (strip '' Alice@X.com  '') = ''alice@x.com''"
  by (simp add: lower_def strip_def isspace_def lower_char_def Let_def)

lemma replace_date: "replace ''2024/03/01'' CHR ''/'' CHR ''-'' = ''2024-03-01''"
  by (simp add: replace_def)

section \<open>Claims about the reconciliation\<close>

lemmas push_defs = push_to_airtable_def needs_update_def replace_def lower_def strip_def
  isspace_def lower_char_def Let_def batches.simps

text \<open>
  Claim C3. The mapping of the existing records is keyed by the stored address as it is,
  not by the normalized address: only the address of the aggregate is trimmed and
  lowercased. A stored \<open>Alice@X.com\<close> is therefore not found for the aggregate address
  \<open>alice@x.com\<close>, which differs from it only in case, and the entry is queued as an insert.
\<close>

theorem stored_address_differing_in_case_is_inserted:
  "existing_records_dict
     [\<lparr>record_id = ''rec1'',
       record_fields = \<lparr>Recipient_Email_field = Some ''Alice@X.com'',
                         Total_Mails_Sent_field = Some 2,
                         Last_Interacted_Date_field = Some ''2024-03-01''\<rparr>\<rparr>] [] =
   Inr [(''Alice@X.com'',
         \<lparr>record_id = ''rec1'',
          record_fields = \<lparr>Recipient_Email_field = Some ''Alice@X.com'',
                            Total_Mails_Sent_field = Some 2,
                            Last_Interacted_Date_field = Some ''2024-03-01''\<rparr>\<rparr>)]
   \<and> push_to_airtable
     [\<lparr>record_id = ''rec1'',
       record_fields = \<lparr>Recipient_Email_field = Some ''Alice@X.com'',
                         Total_Mails_Sent_field = Some 2,
                         Last_Interacted_Date_field = Some ''2024-03-01''\<rparr>\<rparr>]
     [\<lparr>Recipient_Email = ''alice@x.com'', Company_Management = ''x.com'', Total_Mails_Sent = 2,
       Name = ''Alice'', Last_Interacted_Date = Some ''2024/03/01''\<rparr>] =
   Inr [Post [\<lparr>Recipient_Email = ''alice@x.com'', Company_Management = ''x.com'',
               Total_Mails_Sent = 2, Name = ''Alice'',
               Last_Interacted_Date = Some ''2024/03/01''\<rparr>]]"
  by (simp add: push_defs)

text \<open>
  Claim C6. A first run on an empty table inserts the entry of \<open>Bob@Y.org\<close> with the
  address as the aggregate has it. A second run finds that record stored, with the same
  total and the same date, and the same aggregate: it inserts the entry again, because the
  address it looks up is \<open>bob@y.org\<close>. With the stored address in small letters the second
  run sends nothing.
\<close>

theorem unchanged_aggregate_is_inserted_again:
  "push_to_airtable []
     [\<lparr>Recipient_Email = ''Bob@Y.org'', Company_Management = ''Y.org'', Total_Mails_Sent = 1,
       Name = ''Bob'', Last_Interacted_Date = Some ''2024/01/15''\<rparr>] =
   Inr [Post [\<lparr>Recipient_Email = ''Bob@Y.org'', Company_Management = ''Y.org'',
               Total_Mails_Sent = 1, Name = ''Bob'',
               Last_Interacted_Date = Some ''2024/01/15''\<rparr>]]
   \<and> push_to_airtable
     [\<lparr>record_id = ''rec7'',
       record_fields = \<lparr>Recipient_Email_field = Some ''Bob@Y.org'',
                         Total_Mails_Sent_field = Some 1,
                         Last_Interacted_Date_field = Some ''2024-01-15''\<rparr>\<rparr>]
     [\<lparr>Recipient_Email = ''Bob@Y.org'', Company_Management = ''Y.org'', Total_Mails_Sent = 1,
       Name = ''Bob'', Last_Interacted_Date = Some ''2024/01/15''\<rparr>] =
   Inr [Post [\<lparr>Recipient_Email = ''Bob@Y.org'', Company_Management = ''Y.org'',
               Total_Mails_Sent = 1, Name = ''Bob'',
               Last_Interacted_Date = Some ''2024/01/15''\<rparr>]]
   \<and> push_to_airtable
     [\<lparr>record_id = ''rec7'',
       record_fields = \<lparr>Recipient_Email_field = Some ''bob@y.org'',
                         Total_Mails_Sent_field = Some 1,
                         Last_Interacted_Date_field = Some ''2024-01-15''\<rparr>\<rparr>]
     [\<lparr>Recipient_Email = ''bob@y.org'', Company_Management = ''y.org'', Total_Mails_Sent = 1,
       Name = ''Bob'', Last_Interacted_Date = Some ''2024/01/15''\<rparr>] = Inr []"
  by (simp add: push_defs)

section \<open>Properties of the fetch\<close>


lemma should_stop_cases:
  "should_stop callback_fn is_stopped =
     (if callback_fn = Bound_method Object_without_should_stop then Inl AttributeError
      else Inr (callback_fn = Bound_method Object_with_should_stop \<and> is_stopped))"
  by (simp add: should_stop_def split: callback.splits self_object.splits)

section \<open>Properties of the run\<close>

lemma submit_loop_never_stopped:
  assumes "\<forall>j. should_stop callback_fn (flag j) = Inr False"
  shows "submit_loop callback_fn flag k batches_left =
     Inr (False, k + length batches_left,
          concat (map (\<lambda>batch. [Stop_checked False, Submitted batch]) batches_left))"
  using assms by (induction batches_left arbitrary: k) simp_all

lemma completed_loop_never_stopped:
  assumes "\<forall>j. should_stop callback_fn (flag j) = Inr False"
  shows "completed_loop callback_fn flag k futures =
     Inr (k + futures, replicate futures (Stop_checked False))"
  using assms by (induction futures arbitrary: k) simp_all

lemma main_never_stopped:
  assumes "\<forall>j. should_stop callback_fn (is_stopped_at r j) = Inr False"
  shows "main callback_fn r =
     Inr (if access_token r = None \<or> access_token r = Some ''''
          then [Stop_checked False, Logged_no_token]
          else [Stop_checked False, Stop_checked False, Logged_total (total_emails r)]
               @ concat (map (\<lambda>batch. [Stop_checked False, Submitted batch])
                           [0..<total_batches (total_emails r)])
               @ replicate (total_batches (total_emails r)) (Stop_checked False)
               @ [Stop_checked False] @ final_processing r)"
  using assms
  by (simp add: main_def submit_loop_never_stopped completed_loop_never_stopped)

lemma final_processing_events:
  "e \<in> set (final_processing r) \<Longrightarrow> e \<noteq> Stop_checked True \<and> e \<noteq> Logged_stopped"
  by (auto simp: final_processing_def split: sum.splits)

lemma two_batches:
  assumes "BATCH_SIZE < n"
  shows "\<exists>rest. [0..<total_batches n] = 0 # 1 # rest"
proof -
  have "2 \<le> n div 50 + (if n mod 50 \<noteq> 0 then 1 else 0)"
  proof (cases "n div 50 = 1")
    case True
    have "n = 50 * (n div 50) + n mod 50" by simp
    with True assms have "n mod 50 \<noteq> 0" by (simp add: BATCH_SIZE_def)
    with True show ?thesis by simp
  next
    case False
    have "50 \<le> n" using assms by (simp add: BATCH_SIZE_def)
    then have "1 \<le> n div 50" by (simp add: Suc_le_eq div_greater_zero_iff)
    with False show ?thesis by simp
  qed
  then have "Suc (Suc 0) \<le> total_batches n" by (simp add: total_batches_def BATCH_SIZE_def)
  then obtain m where m: "total_batches n = Suc (Suc m)"
    by (auto simp: Suc_le_eq dest!: less_imp_Suc_add)
  have "[0..<Suc (Suc m)] = 0 # [Suc 0..<Suc (Suc m)]" by (rule upt_conv_Cons) simp
  moreover have "[Suc 0..<Suc (Suc m)] = Suc 0 # [Suc (Suc 0)..<Suc (Suc m)]"
    by (rule upt_conv_Cons) simp
  ultimately show ?thesis unfolding m by simp
qed

section \<open>Claims about the fetch\<close>




text \<open>
  Claim C7. A batch whose request is answered by 500 each time: \<open>fetch_sent_emails\<close> makes
  three requests, logs the failure and adds nothing to the shared list, but it sleeps
  three times, the third time after the last attempt and not between two attempts.
\<close>

theorem failed_batch_sleeps_after_the_last_attempt:
  "fetch_sent_emails 1
     [mail [''a@x.com''] [] [] ''2024-01-15T10:30:00Z'' [''a@x.com'' \<mapsto> ''Alice'']]
     (\<lambda>k. Some \<lparr>status_code = 500, messages = [], response_text = ''Internal Server Error''\<rparr>) =
   (None,
    [mail [''a@x.com''] [] [] ''2024-01-15T10:30:00Z'' [''a@x.com'' \<mapsto> ''Alice'']],
    [Requested_page 50, Logged_attempt_failed 1 1 ''Internal Server Error'', Slept 10,
     Requested_page 50, Logged_attempt_failed 1 2 ''Internal Server Error'', Slept 10,
     Requested_page 50, Logged_attempt_failed 1 3 ''Internal Server Error'', Slept 10,
     Logged_batch_failed 1])"
  by (simp add: fetch_sent_emails_def fetch_loop.simps MAX_RETRIES_def BATCH_SIZE_def
      RETRY_DELAY_def)

section \<open>Claims about the run\<close>

text \<open>
  Claim C8. In a run of at least two batches in which the flag is not set at the first
  three checks of \<open>main\<close>, the third being the one before batch 0 is submitted, and is set
  at the fourth, the one before batch 1 is submitted, \<open>main\<close> logs the stop, cancels the
  futures and returns: nothing is aggregated, not even the records that batch 0 has
  collected, and nothing is sent to the destination.
\<close>

theorem stop_before_second_batch_returns_without_processing:
  assumes "access_token r = Some token" and "token \<noteq> ''''"
    and "BATCH_SIZE < total_emails r"
    and "\<not> is_stopped_at r 0" and "\<not> is_stopped_at r 1" and "\<not> is_stopped_at r 2"
    and "is_stopped_at r 3"
  shows "main (Bound_method Object_with_should_stop) r =
     Inr [Stop_checked False, Stop_checked False, Logged_total (total_emails r),
          Stop_checked False, Submitted 0,
          Stop_checked True, Logged_stopped, Cancelled_futures]"
proof -
  from two_batches [OF assms(3)] obtain rest where
    "[0..<total_batches (total_emails r)] = 0 # 1 # rest" by blast
  with assms show ?thesis
    by (simp add: main_def should_stop_def numeral_2_eq_2 numeral_3_eq_3)
qed

text \<open>
  A run of 120 messages, three batches, in which batch 0 has collected one record when the
  flag is set.
\<close>

theorem stop_before_second_batch_returns_without_processing_witness:
  "main (Bound_method Object_with_should_stop)
     \<lparr>access_token = Some ''token'', total_emails = 120, is_stopped_at = (\<lambda>k. 3 \<le> k),
      collected = [mail [''a@x.com''] [] [] ''2024-01-15T10:30:00Z'' [''a@x.com'' \<mapsto> ''Alice'']],
      iteration_order = remdups, existing_records = []\<rparr> =
   Inr [Stop_checked False, Stop_checked False, Logged_total 120,
        Stop_checked False, Submitted 0,
        Stop_checked True, Logged_stopped, Cancelled_futures]"
  using stop_before_second_batch_returns_without_processing
    [of "\<lparr>access_token = Some ''token'', total_emails = 120, is_stopped_at = (\<lambda>k. 3 \<le> k),
          collected = [mail [''a@x.com''] [] [] ''2024-01-15T10:30:00Z''
                         [''a@x.com'' \<mapsto> ''Alice'']],
          iteration_order = remdups, existing_records = []\<rparr>" "''token''"]
  by (simp add: BATCH_SIZE_def)

text \<open>
  The claim as it is written, with an aggregation over the records of batch 0, fails on a
  run of 100 messages in which the flag is set when batch 0 has collected its record: the
  record would aggregate to one summary, and the run aggregates nothing.
\<close>

theorem collected_batch_is_not_aggregated:
  "aggregate_email_data remdups
     [mail [''a@x.com''] [] [] ''2024-01-15T10:30:00Z'' [''a@x.com'' \<mapsto> ''Alice'']] =
   Inr [\<lparr>Recipient_Email = ''a@x.com'', Company_Management = ''x.com'', Total_Mails_Sent = 1,
          Name = ''Alice'', Last_Interacted_Date = Some ''2024/01/15''\<rparr>]
   \<and> main (Bound_method Object_with_should_stop)
     \<lparr>access_token = Some ''token'', total_emails = 100, is_stopped_at = (\<lambda>k. 3 \<le> k),
      collected = [mail [''a@x.com''] [] [] ''2024-01-15T10:30:00Z'' [''a@x.com'' \<mapsto> ''Alice'']],
      iteration_order = remdups, existing_records = []\<rparr> =
   Inr [Stop_checked False, Stop_checked False, Logged_total 100,
        Stop_checked False, Submitted 0,
        Stop_checked True, Logged_stopped, Cancelled_futures]"
  by (simp add: aggregate_defs format_date_jan15 main_def should_stop_def total_batches_def
      BATCH_SIZE_def upt_rec numeral_2_eq_2 numeral_3_eq_3)

text \<open>
  Claim C10. When \<open>callback_fn\<close> is \<open>None\<close> or a function without \<open>__self__\<close>,
  \<open>should_stop\<close> returns \<open>False\<close> whatever the flag is, and the run is never stopped: no
  check answers \<open>True\<close>, no stop is logged, and with an access token the run ends with the
  final processing. \<open>should_stop\<close> returns \<open>True\<close> only for a method bound to an object
  that has \<open>should_stop\<close>, and for such a method it returns the object's flag.
\<close>

theorem run_without_bound_method_is_never_stopped:
  "(callback_fn = No_callback \<or> callback_fn = Plain_function \<longrightarrow>
      should_stop callback_fn is_stopped = Inr False \<and>
      (\<exists>trace. main callback_fn r = Inr trace \<and>
         Stop_checked True \<notin> set trace \<and> Logged_stopped \<notin> set trace \<and>
         (\<forall>token. access_token r = Some token \<and> token \<noteq> '''' \<longrightarrow>
            (\<exists>before. trace = before @ final_processing r)))) \<and>
   (should_stop callback_fn is_stopped = Inr True \<longrightarrow>
      callback_fn = Bound_method Object_with_should_stop \<and> is_stopped) \<and>
   should_stop (Bound_method Object_with_should_stop) is_stopped = Inr is_stopped"
proof -
  have "should_stop callback_fn is_stopped = Inr False \<and>
      (\<exists>trace. main callback_fn r = Inr trace \<and>
         Stop_checked True \<notin> set trace \<and> Logged_stopped \<notin> set trace \<and>
         (\<forall>token. access_token r = Some token \<and> token \<noteq> '''' \<longrightarrow>
            (\<exists>before. trace = before @ final_processing r)))"
    if cb: "callback_fn = No_callback \<or> callback_fn = Plain_function"
  proof -
    from cb have never: "\<forall>j. should_stop callback_fn (is_stopped_at r j) = Inr False"
      and now: "should_stop callback_fn is_stopped = Inr False"
      by (auto simp: should_stop_def)
    show ?thesis
    proof (cases "access_token r = None \<or> access_token r = Some ''''")
      case True
      with main_never_stopped [OF never] now show ?thesis by auto
    next
      case False
      let ?before = "[Stop_checked False, Stop_checked False, Logged_total (total_emails r)]
               @ concat (map (\<lambda>batch. [Stop_checked False, Submitted batch])
                           [0..<total_batches (total_emails r)])
               @ replicate (total_batches (total_emails r)) (Stop_checked False)
               @ [Stop_checked False]"
      from False main_never_stopped [OF never]
      have trace: "main callback_fn r = Inr (?before @ final_processing r)" by simp
      have "Stop_checked True \<notin> set (?before @ final_processing r)"
        and "Logged_stopped \<notin> set (?before @ final_processing r)"
        using final_processing_events [of _ r] by auto
      with trace now show ?thesis by blast
    qed
  qed
  moreover have "callback_fn = Bound_method Object_with_should_stop \<and> is_stopped"
    if "should_stop callback_fn is_stopped = Inr True"
    using that by (simp add: should_stop_cases split: if_splits)
  moreover have "should_stop (Bound_method Object_with_should_stop) is_stopped = Inr is_stopped"
    by (simp add: should_stop_def)
  ultimately show ?thesis by blast
qed

text \<open>
  A run without a callback in which the flag would be set from the start: 60 messages,
  two batches, and the record collected is aggregated and inserted.
\<close>

theorem run_without_bound_method_is_never_stopped_witness:
  "should_stop No_callback True = Inr False
   \<and> (\<exists>before.
        main No_callback
          \<lparr>access_token = Some ''token'', total_emails = 60, is_stopped_at = (\<lambda>k. True),
           collected = [mail [''a@x.com''] [] [] ''2024-01-15T10:30:00Z''
                          [''a@x.com'' \<mapsto> ''Alice'']],
           iteration_order = remdups, existing_records = []\<rparr> =
        Inr (before @
          [Aggregated
             [\<lparr>Recipient_Email = ''a@x.com'', Company_Management = ''x.com'',
               Total_Mails_Sent = 1, Name = ''Alice'',
               Last_Interacted_Date = Some ''2024/01/15''\<rparr>],
           Pushed
             [Post [\<lparr>Recipient_Email = ''a@x.com'', Company_Management = ''x.com'',
                     Total_Mails_Sent = 1, Name = ''Alice'',
                     Last_Interacted_Date = Some ''2024/01/15''\<rparr>]]])
        \<and> Stop_checked True \<notin> set before \<and> Logged_stopped \<notin> set before)"
proof -
  let ?r = "\<lparr>access_token = Some ''token'', total_emails = 60, is_stopped_at = (\<lambda>k. True),
             collected = [mail [''a@x.com''] [] [] ''2024-01-15T10:30:00Z''
                            [''a@x.com'' \<mapsto> ''Alice'']],
             iteration_order = remdups, existing_records = []\<rparr>"
  have final: "final_processing ?r =
      [Aggregated
         [\<lparr>Recipient_Email = ''a@x.com'', Company_Management = ''x.com'',
           Total_Mails_Sent = 1, Name = ''Alice'',
           Last_Interacted_Date = Some ''2024/01/15''\<rparr>],
       Pushed
         [Post [\<lparr>Recipient_Email = ''a@x.com'', Company_Management = ''x.com'',
                 Total_Mails_Sent = 1, Name = ''Alice'',
                 Last_Interacted_Date = Some ''2024/01/15''\<rparr>]]]"
    by (simp add: final_processing_def aggregate_defs format_date_jan15 push_defs)
  from run_without_bound_method_is_never_stopped [of No_callback True ?r]
  obtain trace before where "should_stop No_callback True = Inr False"
    and "main No_callback ?r = Inr trace"
    and "Stop_checked True \<notin> set trace" and "Logged_stopped \<notin> set trace"
    and "trace = before @ final_processing ?r"
    by auto
  then show ?thesis unfolding final by auto
qed

end
